theory Spec2Isabelle
  imports Complex_Main "HOL-Library.Sublist"
begin

section \<open>Shared data: JSON values and Python helpers\<close>

text \<open>
  A parsed JSON document, as \<^verbatim>\<open>json.loads\<close> hands it to the Python code. An
  object is the list of the dictionary's items; a key is looked up with \<open>map_of\<close>.
  Numbers are rationals: the code only passes them on.
\<close>

datatype json =
    JNull
  | JBool bool
  | JNum rat
  | JStr string
  | JArr "json list"
  | JObj "(string \<times> json) list"

text \<open>\<^verbatim>\<open>str(n)\<close> of a non-negative integer, as the f-strings of the source print a port.\<close>

definition digit_char :: "nat \<Rightarrow> char" where
  "digit_char d = ''0123456789'' ! d"

function str_nat :: "nat \<Rightarrow> string" where
  "str_nat n = (if n < 10 then [digit_char n] else str_nat (n div 10) @ [digit_char (n mod 10)])"
  by pat_completeness auto
termination
  by (relation "measure id") auto

section \<open>router.py\<close>

subsection \<open>\<^verbatim>\<open>itertools.cycle\<close>\<close>

text \<open>
  The iterator object of \<^verbatim>\<open>itertools.cycle(iterable)\<close>: \<open>it\<close> is what is left of
  the first pass over the iterable (\<open>None\<close> once it is exhausted), \<open>saved\<close> the
  elements seen in the first pass, \<open>index\<close> the position of the replay.
  \<open>cycle_next\<close> is \<^verbatim>\<open>next()\<close>; \<open>None\<close> is \<^verbatim>\<open>StopIteration\<close>.
\<close>

record 'a cycle =
  it :: "'a list option"
  saved :: "'a list"
  index :: nat

definition cycle :: "'a list \<Rightarrow> 'a cycle" where
  "cycle iterable = \<lparr>it = Some iterable, saved = [], index = 0\<rparr>"

definition cycle_replay :: "'a cycle \<Rightarrow> ('a \<times> 'a cycle) option" where
  "cycle_replay c =
     (if saved c = [] then None
      else let item = saved c ! index c; i = index c + 1
           in Some (item, c\<lparr>it := None, index := (if i \<ge> length (saved c) then 0 else i)\<rparr>))"

definition cycle_next :: "'a cycle \<Rightarrow> ('a \<times> 'a cycle) option" where
  "cycle_next c =
     (case it c of
        Some (x # xs) \<Rightarrow> Some (x, c\<lparr>it := Some xs, saved := saved c @ [x]\<rparr>)
      | Some [] \<Rightarrow> cycle_replay c
      | None \<Rightarrow> cycle_replay c)"

subsection \<open>The request model\<close>

text \<open>
  \<^verbatim>\<open>class AnimationRequest(BaseModel)\<close>, declared with the same fields and defaults in
  router.py and in server.py.
\<close>

record AnimationRequest =
  mesh_b64_str :: string
  animation_name :: string
  is_gs :: bool
  opacity_threshold :: rat
  no_fingers :: bool
  rest_pose_type :: "string option"
  ignore_pose_parts :: "string list"
  input_normal :: bool
  bw_fix :: bool
  bw_vis_bone :: string
  reset_to_rest :: bool
  animation_file :: "string option"
  retarget :: bool
  inplace :: bool








text \<open>
  One field of the model: \<open>dflt = None\<close> is a required field. \<open>Inl k\<close> is a
  validation error at field \<open>k\<close> (missing or of the wrong type).
\<close>

definition field :: "(json \<Rightarrow> 'a option) \<Rightarrow> 'a option \<Rightarrow> (string \<times> json) list \<Rightarrow> string \<Rightarrow> string + 'a" where
  "field conv dflt body k =
     (case map_of body k of
        None \<Rightarrow> (case dflt of None \<Rightarrow> Inl k | Some d \<Rightarrow> Inr d)
      | Some v \<Rightarrow> (case conv v of None \<Rightarrow> Inl k | Some a \<Rightarrow> Inr a))"





definition json_optional_str :: "string option \<Rightarrow> json" where
  "json_optional_str v = (case v of None \<Rightarrow> JNull | Some s \<Rightarrow> JStr s)"

text \<open>\<^verbatim>\<open>payload.model_dump()\<close>: every field of the model, in declaration order.\<close>

definition model_dump :: "AnimationRequest \<Rightarrow> json" where
  "model_dump p = JObj
     [(''mesh_b64_str'', JStr (mesh_b64_str p)),
      (''animation_name'', JStr (animation_name p)),
      (''is_gs'', JBool (is_gs p)),
      (''opacity_threshold'', JNum (opacity_threshold p)),
      (''no_fingers'', JBool (no_fingers p)),
      (''rest_pose_type'', json_optional_str (rest_pose_type p)),
      (''ignore_pose_parts'', JArr (map JStr (ignore_pose_parts p))),
      (''input_normal'', JBool (input_normal p)),
      (''bw_fix'', JBool (bw_fix p)),
      (''bw_vis_bone'', JStr (bw_vis_bone p)),
      (''reset_to_rest'', JBool (reset_to_rest p)),
      (''animation_file'', json_optional_str (animation_file p)),
      (''retarget'', JBool (retarget p)),
      (''inplace'', JBool (inplace p))]"

subsection \<open>The application state and the forwarded call\<close>

record app_state =
  worker_servers :: "string list"
  server_cycle :: "string cycle"

definition worker_ports :: "string \<Rightarrow> nat list" where
  "worker_ports env = (if env = ''dev'' then [8001, 8002, 8003] else [9001, 9002, 9003])"

definition worker_servers_list :: "string \<Rightarrow> string list" where
  "worker_servers_list env = map (\<lambda>p. ''http://localhost:'' @ str_nat p) (worker_ports env)"

text \<open>
  \<open>create_app_from\<close> is \<^verbatim>\<open>create_app\<close> from the point where
  \<^verbatim>\<open>worker_servers_list\<close> is populated: \<open>None\<close> is \<^verbatim>\<open>sys.exit(1)\<close> on an empty list.
\<close>

definition create_app_from :: "string list \<Rightarrow> app_state option" where
  "create_app_from servers =
     (if servers = [] then None
      else Some \<lparr>worker_servers = servers, server_cycle = cycle servers\<rparr>)"

definition create_app :: "string \<Rightarrow> app_state option" where
  "create_app env = create_app_from (worker_servers_list env)"

text \<open>What \<^verbatim>\<open>client.post\<close> is called with.\<close>

record forward =
  url :: string
  body :: json
  headers :: "(string \<times> string) list"
  timeout :: nat

text \<open>
  The worker's response: \<open>json_body = None\<close> is a body that is not JSON, on which
  \<^verbatim>\<open>response.json()\<close> raises.
\<close>

record response =
  status_code :: nat
  json_body :: "json option"

text \<open>
  What the forwarded call does, given by the network and the worker: it returns a
  response or raises. \<open>OtherError\<close> is any exception of the HTTP client that is neither
  \<^verbatim>\<open>ConnectError\<close> nor \<^verbatim>\<open>ReadTimeout\<close> (a \<^verbatim>\<open>ConnectTimeout\<close>, a
  \<^verbatim>\<open>RemoteProtocolError\<close>, ...), with its class name.
\<close>

datatype post_outcome =
    Returned response
  | ConnectError string
  | ReadTimeout string
  | OtherError string

text \<open>
  How a call of the handler ends: a response, an \<^verbatim>\<open>HTTPException\<close> with status and
  detail, or an exception that no handler of the source catches.
\<close>

datatype handler_result =
    JSONResponse nat json
  | HTTPException nat json
  | Unhandled string

definition WORKER_TIMEOUT :: nat where
  "WORKER_TIMEOUT = 300"

definition WORKER_TIMEOUT_str :: string where
  "WORKER_TIMEOUT_str = ''300.0''"

definition is_success :: "nat \<Rightarrow> bool" where
  "is_success s = (200 \<le> s \<and> s \<le> 299)"

definition unknown_worker_error :: string where
  "unknown_worker_error = ''An unknown error occurred on the worker server.''"

definition headers_to_forward :: "(string \<times> string) list \<Rightarrow> (string \<times> string) list" where
  "headers_to_forward request_headers =
     [(''Content-Type'', ''application/json'')]
     @ (case map_of request_headers ''authorization'' of
          None \<Rightarrow> [] | Some v \<Rightarrow> [(''Authorization'', v)])
     @ (case map_of request_headers ''x-api-key'' of
          None \<Rightarrow> [] | Some v \<Rightarrow> [(''x-api-key'', v)])"

text \<open>The \<^verbatim>\<open>except httpx.HTTPStatusError\<close> branch.\<close>

definition relay_status_error :: "response \<Rightarrow> handler_result" where
  "relay_status_error r =
     (case json_body r of
        None \<Rightarrow> Unhandled ''JSONDecodeError''
      | Some (JObj kvs) \<Rightarrow>
          HTTPException (status_code r)
            (case map_of kvs ''detail'' of None \<Rightarrow> JStr unknown_worker_error | Some d \<Rightarrow> d)
      | Some _ \<Rightarrow> Unhandled ''AttributeError'')"

text \<open>The \<^verbatim>\<open>try\<close> statement around \<^verbatim>\<open>client.post\<close> and what follows it.\<close>

definition relay :: "string \<Rightarrow> post_outcome \<Rightarrow> handler_result" where
  "relay worker_url outcome =
     (case outcome of
        Returned r \<Rightarrow>
          (if is_success (status_code r) then
             (case json_body r of
                None \<Rightarrow> Unhandled ''JSONDecodeError''
              | Some j \<Rightarrow> JSONResponse (status_code r) j)
           else relay_status_error r)
      | ConnectError e \<Rightarrow>
          HTTPException 503 (JStr (''Could not connect to worker server at '' @ worker_url
            @ ''. The service may be down. Error: '' @ e))
      | ReadTimeout e \<Rightarrow>
          HTTPException 504 (JStr (''Request to worker server at '' @ worker_url
            @ '' timed out after '' @ WORKER_TIMEOUT_str @ '' seconds. Error: '' @ e))
      | OtherError e \<Rightarrow> Unhandled e)"

text \<open>
  The handler \<^verbatim>\<open>route_animation_request(payload, request)\<close>. \<open>post\<close> is the
  behaviour of the network for this call. The result carries what was forwarded
  (\<open>None\<close> when nothing was) and the state after the call.
\<close>

definition route_animation_request ::
  "app_state \<Rightarrow> AnimationRequest \<Rightarrow> (string \<times> string) list \<Rightarrow> (forward \<Rightarrow> post_outcome)
     \<Rightarrow> handler_result \<times> forward option \<times> app_state" where
  "route_animation_request app payload request_headers post =
     (case cycle_next (server_cycle app) of
        None \<Rightarrow> (Unhandled ''StopIteration'', None, app)
      | Some (worker_url, cyc) \<Rightarrow>
          (let fwd = \<lparr>url = worker_url @ ''/animate'', body = model_dump payload,
                      headers = headers_to_forward request_headers, timeout = WORKER_TIMEOUT\<rparr>
           in (relay worker_url (post fwd), Some fwd, app\<lparr>server_cycle := cyc\<rparr>)))"

text \<open>
  An inbound \<^verbatim>\<open>POST /animate\<close>: FastAPI validates the body and calls the handler only
  with a valid model; a body that fails validation is answered with status 422 and the
  handler does not run.
\<close>

record http_request =
  request_headers :: "(string \<times> string) list"
  request_body :: json


text \<open>Sequential calls of the handler, each with its own network behaviour.\<close>

fun serve ::
  "app_state \<Rightarrow> (AnimationRequest \<times> (string \<times> string) list \<times> (forward \<Rightarrow> post_outcome)) list
     \<Rightarrow> (handler_result \<times> forward option) list \<times> app_state" where
  "serve app [] = ([], app)"
| "serve app ((payload, hs, post) # rest) =
     (case route_animation_request app payload hs post of
        (res, fwd, app') \<Rightarrow>
          (case serve app' rest of (outs, app'') \<Rightarrow> ((res, fwd) # outs, app'')))"

text \<open>
  The dispatch cursor: the position in the pool of the element the next call of
  \<open>cycle_next\<close> returns. During the first pass that is the number of elements already
  saved, afterwards the replay index.
\<close>

definition cursor :: "'a cycle \<Rightarrow> nat" where
  "cursor c = (case it c of Some (x # xs) \<Rightarrow> length (saved c) | _ \<Rightarrow> index c)"

text \<open>The state of the iterator of \<open>cycle pool\<close> after \<open>k\<close> calls of \<open>cycle_next\<close>.\<close>

definition cyc_inv :: "'a list \<Rightarrow> nat \<Rightarrow> 'a cycle \<Rightarrow> bool" where
  "cyc_inv pool k c =
     (if k < length pool
      then it c = Some (drop k pool) \<and> saved c = take k pool \<and> index c = 0
      else (it c = Some [] \<or> it c = None) \<and> saved c = pool \<and> index c = k mod length pool)"

subsection \<open>Concrete inputs of the router\<close>

definition example_payload :: AnimationRequest where
  "example_payload =
     \<lparr>mesh_b64_str = ''Z2xURg=='', animation_name = ''running'', is_gs = False,
      opacity_threshold = 0, no_fingers = False, rest_pose_type = None,
      ignore_pose_parts = [], input_normal = False, bw_fix = True,
      bw_vis_bone = ''LeftArm'', reset_to_rest = True, animation_file = None,
      retarget = True, inplace = True\<rparr>"

definition example_headers :: "(string \<times> string) list" where
  "example_headers = [(''content-type'', ''application/json''), (''x-api-key'', ''k1'')]"

definition worker_ok :: "forward \<Rightarrow> post_outcome" where
  "worker_ok fwd = Returned \<lparr>status_code = 200,
     json_body = Some (JObj [(''mesh_base64'', JStr ''QQ==''), (''gif_base64'', JNull),
       (''thumbnail_base64'', JNull)])\<rparr>"

definition worker_down :: "forward \<Rightarrow> post_outcome" where
  "worker_down fwd = ConnectError ''All connection attempts failed''"

definition four_calls ::
  "(AnimationRequest \<times> (string \<times> string) list \<times> (forward \<Rightarrow> post_outcome)) list" where
  "four_calls =
     [(example_payload, example_headers, worker_ok),
      (example_payload, example_headers, worker_down),
      (example_payload, example_headers, worker_ok),
      (example_payload, example_headers, worker_ok)]"

definition dev_app :: app_state where
  "dev_app = \<lparr>worker_servers = worker_servers_list ''dev'',
              server_cycle = cycle (worker_servers_list ''dev'')\<rparr>"



definition worker_connect_timeout :: "forward \<Rightarrow> post_outcome" where
  "worker_connect_timeout fwd = OtherError ''ConnectTimeout''"





section \<open>server.py\<close>

subsection \<open>Files and paths\<close>

text \<open>
  Bytes are characters (a \<open>char\<close> is eight bits). A path is the list of its
  components from the root: \<^verbatim>\<open>/dev/shm/tmpab.glb\<close> is \<open>[''dev'', ''shm'', ''tmpab.glb'']\<close>.
  The file system maps a path to what is there.
\<close>

type_synonym bytes = string

type_synonym path = "string list"

datatype node = File bytes | Dir

type_synonym filesystem = "path \<Rightarrow> node option"


definition os_path_exists :: "filesystem \<Rightarrow> path \<Rightarrow> bool" where
  "os_path_exists fs p = (fs p \<noteq> None)"




definition os_unlink :: "path \<Rightarrow> filesystem \<Rightarrow> filesystem" where
  "os_unlink p fs = fs(p := None)"


definition write_file :: "path \<Rightarrow> bytes \<Rightarrow> filesystem \<Rightarrow> filesystem" where
  "write_file p b fs = fs(p \<mapsto> File b)"

fun write_files :: "(path \<times> bytes) list \<Rightarrow> filesystem \<Rightarrow> filesystem" where
  "write_files [] fs = fs"
| "write_files ((p, b) # rest) fs = write_files rest (write_file p b fs)"



subsection \<open>The collaborators of one request\<close>

text \<open>
  What one call of the identity service does: it answers with a status and a body
  (\<open>None\<close>: a body that is not JSON), raises \<^verbatim>\<open>httpx.RequestError\<close>, or raises
  another exception.
\<close>

datatype endpoint_outcome =
    Answered nat "json option"
  | RequestError string
  | OtherFailure string

text \<open>
  What a stage of the external pipeline does to the disk: the files it writes, then
  the exception it raises, if any.
\<close>

type_synonym effect = "(path \<times> bytes) list \<times> string option"

text \<open>
  The behaviour of everything the worker calls and does not define, during one request:
  the identity service, the base64 codec, the names \<^verbatim>\<open>tempfile\<close> tries, whether
  writing the scratch file fails (after how many bytes, with which error), the stages of
  the pipeline and the value of \<^verbatim>\<open>db.anim_vis_path\<close> once they have run, the two
  renderers, and whether \<^verbatim>\<open>shutil.rmtree\<close> fails. Every theorem below holds for any
  such behaviour.
\<close>

record collaborators =
  identity_get :: "string \<Rightarrow> string \<Rightarrow> string \<Rightarrow> endpoint_outcome"
  b64decode :: "string \<Rightarrow> string + bytes"
  b64encode :: "bytes \<Rightarrow> string"
  tmp_candidates :: "string list"
  tmp_write_error :: "(nat \<times> string) option"
  prepare_input_effect :: effect
  preprocess_effect :: effect
  infer_effect :: effect
  vis_effect :: effect
  vis_blender_effect :: effect
  anim_vis_path :: "path option"
  thumbnail_render :: "bytes option \<times> string option"
  frames_render :: "(string \<times> bytes) list \<times> (string + bytes)"
  rmtree_error :: "string option"

text \<open>The arguments of \<^verbatim>\<open>vis_blender\<close>.\<close>

record vis_blender_args =
  vb_reset_to_rest :: bool
  vb_remove_fingers :: bool
  vb_rest_pose_type :: string
  vb_ignore_pose_parts :: "string list"
  vb_animation_file :: path
  vb_retarget :: bool
  vb_inplace :: bool

text \<open>The calls the worker makes to its collaborators, with their arguments.\<close>

datatype call =
    IdentityGet string string string
  | PrepareInput path bool rat bool
  | Preprocess
  | Infer bool
  | Vis bool string bool
  | VisBlender vis_blender_args
  | RenderThumbnail path path
  | RenderFrames path path

text \<open>
  The state of a worker process: the disk, the calls made so far, and the cache of the
  authentication gate (for a header name and value: the user data and when the entry
  expires).
\<close>

type_synonym auth_cache = "string \<times> string \<Rightarrow> (json \<times> nat) option"

record world =
  fs :: filesystem
  calls :: "call list"
  cache :: auth_cache

text \<open>An exception inside the worker: an \<^verbatim>\<open>HTTPException\<close> or any other \<^verbatim>\<open>Exception\<close>.\<close>

datatype exn = HTTPExc nat string | Exc string

definition run_stage :: "call \<Rightarrow> effect \<Rightarrow> world \<Rightarrow> string option \<times> world" where
  "run_stage c e w = (snd e, w\<lparr>fs := write_files (fst e) (fs w), calls := calls w @ [c]\<rparr>)"

subsection \<open>The authentication gate\<close>

definition endpoints :: "string list" where
  "endpoints = [''https://api.csm.ai/user/userdata'', ''https://devapi.csm.ai/user/userdata'']"

text \<open>
  The loop of \<^verbatim>\<open>_fetch_user_data_from_api\<close> over the endpoints that are left, with
  the calls made. Status 200 returns the body (\<^verbatim>\<open>resp.json()\<close> raises on a body that
  is not JSON); another status and a \<^verbatim>\<open>RequestError\<close> go on to the next endpoint;
  after the last one the function raises status 403.
\<close>

fun try_endpoints :: "collaborators \<Rightarrow> string \<Rightarrow> string \<Rightarrow> string list \<Rightarrow> (exn + json) \<times> call list" where
  "try_endpoints env header_name header_value [] = (Inl (HTTPExc 403 ''Invalid credentials''), [])"
| "try_endpoints env header_name header_value (u # rest) =
     (let c = IdentityGet u header_name header_value
      in case identity_get env u header_name header_value of
           Answered status b \<Rightarrow>
             (if status = 200 then
                (case b of None \<Rightarrow> (Inl (Exc ''JSONDecodeError''), [c]) | Some j \<Rightarrow> (Inr j, [c]))
              else (case try_endpoints env header_name header_value rest of (r, cs) \<Rightarrow> (r, c # cs)))
         | RequestError e \<Rightarrow>
             (case try_endpoints env header_name header_value rest of (r, cs) \<Rightarrow> (r, c # cs))
         | OtherFailure e \<Rightarrow> (Inl (Exc e), [c]))"

text \<open>The body of \<^verbatim>\<open>_fetch_user_data_from_api\<close>, without its decorator.\<close>

definition fetch_user_data_from_api :: "collaborators \<Rightarrow> string \<Rightarrow> string \<Rightarrow> (exn + json) \<times> call list" where
  "fetch_user_data_from_api env header_name header_value =
     try_endpoints env header_name header_value endpoints"

definition TTL :: nat where
  "TTL = 300"

text \<open>
  Modelled from the spec: the decorator \<^verbatim>\<open>@cached(ttl=300, cache=Cache.MEMORY)\<close> comes
  from a library that is not among the sources. After the spec (4.3): the verification looks up
  a cache keyed by header name and value; on a miss it calls the function and caches a
  successful result for the TTL; a failure is never cached. An entry stored at time
  \<open>t\<close> is valid at the times before \<open>t + TTL\<close>.
\<close>

definition cached_fetch ::
  "collaborators \<Rightarrow> nat \<Rightarrow> auth_cache \<Rightarrow> string \<Rightarrow> string \<Rightarrow> (exn + json) \<times> call list \<times> auth_cache" where
  "cached_fetch env now c header_name header_value =
     (let miss =
        (case fetch_user_data_from_api env header_name header_value of
           (Inr v, cs) \<Rightarrow> (Inr v, cs, c((header_name, header_value) \<mapsto> (v, now + TTL)))
         | (Inl e, cs) \<Rightarrow> (Inl e, cs, c))
      in case c (header_name, header_value) of
           None \<Rightarrow> miss
         | Some (v, expires) \<Rightarrow> if now < expires then (Inr v, [], c) else miss)"

text \<open>
  \<^verbatim>\<open>_verify_api_key(x_api_key, authorization)\<close>. A header that is absent is \<open>None\<close>;
  Python's truth test also takes the empty string for absent. The result is the user
  data, or the status and detail of the \<^verbatim>\<open>HTTPException\<close> raised.
\<close>

definition truthy :: "string option \<Rightarrow> bool" where
  "truthy h = (case h of None \<Rightarrow> False | Some v \<Rightarrow> v \<noteq> [])"

definition auth_result :: "exn + json \<Rightarrow> (nat \<times> string) + json" where
  "auth_result r =
     (case r of
        Inr user \<Rightarrow> Inr user
      | Inl (HTTPExc status detail) \<Rightarrow> Inl (status, detail)
      | Inl (Exc e) \<Rightarrow> Inl (500, ''Auth check failed: '' @ e))"

definition credential :: "string option \<Rightarrow> string option \<Rightarrow> (string \<times> string) option" where
  "credential x_api_key authorization =
     (if truthy x_api_key then Some (''x-api-key'', the x_api_key)
      else if truthy authorization then Some (''Authorization'', the authorization)
      else None)"

definition verify_api_key ::
  "collaborators \<Rightarrow> nat \<Rightarrow> auth_cache \<Rightarrow> string option \<Rightarrow> string option
     \<Rightarrow> ((nat \<times> string) + json) \<times> call list \<times> auth_cache" where
  "verify_api_key env now c x_api_key authorization =
     (case credential x_api_key authorization of
        None \<Rightarrow> (Inl (401, ''Missing auth header''), [], c)
      | Some (name, val) \<Rightarrow>
          (case cached_fetch env now c name val of (r, cs, c') \<Rightarrow> (auth_result r, cs, c')))"

text \<open>The same verification with the decorator taken away: every call asks the service.\<close>

definition verify_api_key_uncached ::
  "collaborators \<Rightarrow> string option \<Rightarrow> string option \<Rightarrow> ((nat \<times> string) + json) \<times> call list" where
  "verify_api_key_uncached env x_api_key authorization =
     (case credential x_api_key authorization of
        None \<Rightarrow> (Inl (401, ''Missing auth header''), [])
      | Some (name, val) \<Rightarrow>
          (case fetch_user_data_from_api env name val of (r, cs) \<Rightarrow> (auth_result r, cs)))"

subsection \<open>The pipeline\<close>

text \<open>The extension \<^verbatim>\<open>_prepare_input_memory\<close> detects from the mesh bytes.\<close>

definition detect_ext :: "bytes \<Rightarrow> string option" where
  "detect_ext mesh_bytes =
     (if take 4 mesh_bytes = ''glTF'' then Some ''.glb''
      else if prefix ''Kaydara FBX'' mesh_bytes then Some ''.fbx''
      else None)"

text \<open>
  The name \<^verbatim>\<open>tempfile.NamedTemporaryFile(suffix=ext, dir="/dev/shm", delete=False)\<close>
  creates: the first candidate that does not exist yet (\<open>None\<close>: no candidate is
  free, \<^verbatim>\<open>FileExistsError\<close>).
\<close>

definition NamedTemporaryFile_name :: "string list \<Rightarrow> string \<Rightarrow> filesystem \<Rightarrow> path option" where
  "NamedTemporaryFile_name candidates sfx disk =
     find (\<lambda>p. disk p = None) (map (\<lambda>n. [''dev'', ''shm'', ''tmp'' @ n @ sfx]) candidates)"

definition mesh_preparation_failed :: "string \<Rightarrow> exn" where
  "mesh_preparation_failed e = HTTPExc 500 (''Mesh preparation failed: '' @ e)"

text \<open>
  The \<^verbatim>\<open>try\<close> block of \<^verbatim>\<open>_prepare_input_memory\<close> with its \<^verbatim>\<open>except\<close> clause: the
  exception raised (if any), the value of \<^verbatim>\<open>input_filepath\<close> and the state when the
  \<^verbatim>\<open>finally\<close> clause starts. \<^verbatim>\<open>input_filepath\<close> is assigned after the write and the
  flush: it is still \<open>None\<close> when one of them raises.
\<close>

definition prepare_input_memory_try ::
  "collaborators \<Rightarrow> bytes \<Rightarrow> string \<Rightarrow> world \<Rightarrow> exn option \<times> path option \<times> world" where
  "prepare_input_memory_try env mesh_bytes ext w =
     (case NamedTemporaryFile_name (tmp_candidates env) ext (fs w) of
        None \<Rightarrow> (Some (mesh_preparation_failed ''FileExistsError''), None, w)
      | Some p \<Rightarrow>
          (case tmp_write_error env of
             Some (n, e) \<Rightarrow>
               (Some (mesh_preparation_failed e), None,
                w\<lparr>fs := write_file p (take n mesh_bytes) (fs w)\<rparr>)
           | None \<Rightarrow>
               (case run_stage (PrepareInput p False 0 False) (prepare_input_effect env)
                       (w\<lparr>fs := write_file p mesh_bytes (fs w)\<rparr>) of
                  (None, w') \<Rightarrow> (None, Some p, w')
                | (Some e, w') \<Rightarrow> (Some (mesh_preparation_failed e), Some p, w'))))"

text \<open>The \<^verbatim>\<open>finally\<close> clause of \<^verbatim>\<open>_prepare_input_memory\<close>.\<close>

definition prepare_input_memory_finally :: "path option \<Rightarrow> world \<Rightarrow> world" where
  "prepare_input_memory_finally input_filepath w =
     (case input_filepath of
        None \<Rightarrow> w
      | Some p \<Rightarrow> if os_path_exists (fs w) p then w\<lparr>fs := os_unlink p (fs w)\<rparr> else w)"

definition empty_mesh_detail :: string where
  "empty_mesh_detail = ''Received empty mesh data. The '' @ [CHR 0x27] @ ''mesh_b64_str'' @ [CHR 0x27]
     @ '' field in the request payload cannot be empty.''"

definition prepare_input_memory :: "collaborators \<Rightarrow> bytes \<Rightarrow> world \<Rightarrow> exn option \<times> world" where
  "prepare_input_memory env mesh_bytes w =
     (if mesh_bytes = [] then (Some (HTTPExc 400 empty_mesh_detail), w)
      else case detect_ext mesh_bytes of
             None \<Rightarrow> (Some (HTTPExc 400 ''Unsupported mesh format. Supported: .glb or .fbx''), w)
           | Some ext \<Rightarrow>
               (case prepare_input_memory_try env mesh_bytes ext w of
                  (r, input_filepath, w') \<Rightarrow> (r, prepare_input_memory_finally input_filepath w')))"

definition DATA_DIR :: path where
  "DATA_DIR = [''home'', ''ray'', ''csm'', ''models'', ''make_it_animatable'', ''data'']"

text \<open>The arguments \<^verbatim>\<open>run_pipeline\<close> gives to \<^verbatim>\<open>vis_blender\<close>.\<close>

definition run_pipeline_vis_blender_args :: "string \<Rightarrow> vis_blender_args" where
  "run_pipeline_vis_blender_args anim_name =
     \<lparr>vb_reset_to_rest = True, vb_remove_fingers = False, vb_rest_pose_type = [],
      vb_ignore_pose_parts = [], vb_animation_file = DATA_DIR @ [anim_name @ ''.fbx''],
      vb_retarget = True, vb_inplace = True\<rparr>"

text \<open>The next stage runs only when nothing was raised before it.\<close>

definition then_stage :: "call \<Rightarrow> effect \<Rightarrow> exn option \<times> world \<Rightarrow> exn option \<times> world" where
  "then_stage c e r =
     (case r of
        (Some x, w) \<Rightarrow> (Some x, w)
      | (None, w) \<Rightarrow>
          (case run_stage c e w of (None, w') \<Rightarrow> (None, w') | (Some m, w') \<Rightarrow> (Some (Exc m), w')))"

text \<open>
  \<^verbatim>\<open>run_pipeline(mesh_bytes, animation_name)\<close>: the five calls in order; the result is
  the exception raised or the \<^verbatim>\<open>anim_vis_path\<close> of the \<^verbatim>\<open>DB\<close> it returns.
\<close>

definition run_pipeline ::
  "collaborators \<Rightarrow> bytes \<Rightarrow> string \<Rightarrow> world \<Rightarrow> (exn + path option) \<times> world" where
  "run_pipeline env mesh_bytes anim_name w =
     (case then_stage (VisBlender (run_pipeline_vis_blender_args anim_name)) (vis_blender_effect env)
            (then_stage (Vis True ''LeftArm'' False) (vis_effect env)
              (then_stage (Infer False) (infer_effect env)
                (then_stage Preprocess (preprocess_effect env)
                  (prepare_input_memory env mesh_bytes w)))) of
        (Some x, w') \<Rightarrow> (Inl x, w')
      | (None, w') \<Rightarrow> (Inr (anim_vis_path env), w'))"

subsection \<open>The endpoint\<close>

















subsection \<open>Concrete inputs of the worker\<close>

definition PROJECT :: path where
  "PROJECT = [''project'']"

definition glb_out :: path where
  "glb_out = [''tmp'', ''out'', ''anim.glb'']"

definition nice_env :: collaborators where
  "nice_env =
     \<lparr>identity_get = (\<lambda>u n v. if n = ''x-api-key'' \<and> v = ''k1''
          then Answered 200 (Some (JObj [(''email'', JStr ''a@b.c'')])) else Answered 401 None),
      b64decode = (\<lambda>s. if s = ''Z2xURg=='' then Inr ''glTF'' else if s = [] then Inr []
          else Inl ''Incorrect padding''),
      b64encode = (\<lambda>b. ''base64:'' @ b),
      tmp_candidates = [''ab12cd34'', ''ef56gh78''],
      tmp_write_error = None,
      prepare_input_effect = ([], None),
      preprocess_effect = ([], None),
      infer_effect = ([], None),
      vis_effect = ([], None),
      vis_blender_effect = ([(glb_out, ''GLB'')], None),
      anim_vis_path = Some glb_out,
      thumbnail_render = (Some ''PNG'', None),
      frames_render = ([(''frame_0001.png'', ''F1'')], Inr ''GIF''),
      rmtree_error = None\<rparr>"

definition disk0 :: world where
  "disk0 = \<lparr>fs = [PROJECT @ [''animation-fbx-files'', ''running.fbx''] \<mapsto> File ''FBX''],
            calls = [], cache = Map.empty\<rparr>"









subsection \<open>Sequences of verifications\<close>

text \<open>
  A verification: the time, the behaviour of the identity service at that time, and the
  two headers. \<open>run_cached\<close> threads the cache through a sequence of verifications
  and collects the outcomes; \<open>run_uncached\<close> does the same without a cache.
\<close>

type_synonym verification = "nat \<times> collaborators \<times> string option \<times> string option"

fun run_cached :: "auth_cache \<Rightarrow> verification list \<Rightarrow> ((nat \<times> string) + json) list" where
  "run_cached c [] = []"
| "run_cached c ((now, env, x_api_key, authorization) # rest) =
     (case verify_api_key env now c x_api_key authorization of
        (r, cs, c') \<Rightarrow> r # run_cached c' rest)"

fun run_uncached :: "verification list \<Rightarrow> ((nat \<times> string) + json) list" where
  "run_uncached [] = []"
| "run_uncached ((now, env, x_api_key, authorization) # rest) =
     fst (verify_api_key_uncached env x_api_key authorization) # run_uncached rest"

text \<open>The identity service answers a credential at both endpoints as it did before.\<close>

definition same_answers :: "collaborators \<Rightarrow> collaborators \<Rightarrow> (string \<times> string) option \<Rightarrow> bool" where
  "same_answers env env' cred =
     (case cred of
        None \<Rightarrow> True
      | Some (name, val) \<Rightarrow>
          list_all (\<lambda>u. identity_get env' u name val = identity_get env u name val) endpoints)"

text \<open>
  The identity service answers consistently within the TTL window: a verification that
  comes less than \<open>TTL\<close> after an earlier one of the same credential gets the same
  answers.
\<close>

fun consistent_within_ttl :: "verification list \<Rightarrow> bool" where
  "consistent_within_ttl [] = True"
| "consistent_within_ttl ((now, env, x_api_key, authorization) # rest) =
     (list_all (\<lambda>(now', env', x', a').
         credential x' a' = credential x_api_key authorization \<and> now' < now + TTL
           \<longrightarrow> same_answers env env' (credential x_api_key authorization)) rest
      \<and> consistent_within_ttl rest)"

text \<open>An endpoint fails: it answers with a status other than 200 or the request fails.\<close>

definition endpoint_fails :: "endpoint_outcome \<Rightarrow> bool" where
  "endpoint_fails out = (case out of Answered status b \<Rightarrow> status \<noteq> 200 | RequestError e \<Rightarrow> True
     | OtherFailure e \<Rightarrow> False)"

text \<open>Every entry of the cache that a coming verification can hit holds what the service answers then.\<close>

definition cache_ok :: "auth_cache \<Rightarrow> verification list \<Rightarrow> bool" where
  "cache_ok c reqs =
     (\<forall>(now, env, x, a) \<in> set reqs. \<forall>name val user expires.
        credential x a = Some (name, val) \<and> c (name, val) = Some (user, expires) \<and> now < expires
          \<longrightarrow> fst (fetch_user_data_from_api env name val) = Inr user)"

definition revoked_env :: collaborators where
  "revoked_env = nice_env\<lparr>identity_get := (\<lambda>u n v. Answered 401 None)\<rparr>"

definition five_verifications :: "verification list" where
  "five_verifications =
     [(0, nice_env, Some ''k1'', None), (100, nice_env, Some ''k1'', None),
      (200, nice_env, Some ''k9'', None), (250, nice_env, Some ''k9'', None),
      (400, revoked_env, Some ''k1'', None)]"

section \<open>Properties of the router\<close>

lemma cycle_replay_index:
  "saved c \<noteq> [] \<Longrightarrow> index c < length (saved c) \<Longrightarrow>
     cycle_replay c = Some (saved c ! index c,
       c\<lparr>it := None, index := Suc (index c) mod length (saved c)\<rparr>)"
  by (auto simp: cycle_replay_def Let_def not_le le_Suc_eq)

lemma cyc_inv_init: "cyc_inv pool 0 (cycle pool)"
  by (cases pool) (auto simp: cyc_inv_def cycle_def)

lemma cyc_inv_next:
  assumes "cyc_inv pool k c" and "pool \<noteq> []"
  shows "\<exists>c'. cycle_next c = Some (pool ! (k mod length pool), c') \<and> cyc_inv pool (Suc k) c'"
proof (cases "k < length pool")
  case True
  then have d: "drop k pool = pool ! k # drop (Suc k) pool"
    by (simp add: Cons_nth_drop_Suc)
  from True assms have c: "it c = Some (drop k pool)" "saved c = take k pool" "index c = 0"
    by (simp_all add: cyc_inv_def)
  have n: "cycle_next c = Some (pool ! k, c\<lparr>it := Some (drop (Suc k) pool), saved := take k pool @ [pool ! k]\<rparr>)"
    by (simp add: cycle_next_def c d)
  have "cyc_inv pool (Suc k) (c\<lparr>it := Some (drop (Suc k) pool), saved := take k pool @ [pool ! k]\<rparr>)"
  proof (cases "Suc k < length pool")
    case True
    then show ?thesis using c by (simp add: cyc_inv_def take_Suc_conv_app_nth)
  next
    case False
    with \<open>k < length pool\<close> have l: "length pool = Suc k" by simp
    have "take k pool @ [pool ! k] = take (Suc k) pool"
      using \<open>k < length pool\<close> by (simp add: take_Suc_conv_app_nth)
    also have "\<dots> = pool" using l by simp
    finally show ?thesis using l c by (simp add: cyc_inv_def)
  qed
  with n True show ?thesis by simp
next
  case False
  with assms have c: "it c = Some [] \<or> it c = None" "saved c = pool" "index c = k mod length pool"
    by (simp_all add: cyc_inv_def)
  have lt: "index c < length (saved c)" using c assms(2) by simp
  have r: "cycle_replay c = Some (pool ! (k mod length pool), c\<lparr>it := None, index := Suc (index c) mod length (saved c)\<rparr>)"
    using cycle_replay_index [of c] lt c assms(2) by simp
  have n: "cycle_next c = cycle_replay c"
    using c(1) by (auto simp: cycle_next_def)
  have "cyc_inv pool (Suc k) (c\<lparr>it := None, index := Suc (index c) mod length (saved c)\<rparr>)"
    using False c by (simp add: cyc_inv_def mod_Suc_eq)
  with n r show ?thesis by simp
qed


lemma serve_round_robin:
  assumes "cyc_inv pool k (server_cycle app)" and "pool \<noteq> []"
    and "serve app reqs = (outs, app')"
  shows "length outs = length reqs
     \<and> (\<forall>i < length reqs. map_option url (snd (outs ! i)) = Some (pool ! ((k + i) mod length pool) @ ''/animate''))
     \<and> cyc_inv pool (k + length reqs) (server_cycle app')"
  using assms
proof (induction reqs arbitrary: app k outs)
  case Nil
  then show ?case by simp
next
  case (Cons r rest)
  obtain payload hs post where r: "r = (payload, hs, post)" by (cases r) auto
  from cyc_inv_next [OF Cons.prems(1,2)] obtain c' where
    n: "cycle_next (server_cycle app) = Some (pool ! (k mod length pool), c')"
    and inv': "cyc_inv pool (Suc k) c'" by blast
  obtain res fwd app1 where ra: "route_animation_request app payload hs post = (res, fwd, app1)"
    by (cases "route_animation_request app payload hs post") auto
  with n have fwd: "map_option url fwd = Some (pool ! (k mod length pool) @ ''/animate'')"
    and app1: "server_cycle app1 = c'"
    by (auto simp: route_animation_request_def Let_def)
  obtain outs1 app2 where s: "serve app1 rest = (outs1, app2)" by (cases "serve app1 rest") auto
  from Cons.prems(3) r ra s have o: "outs = (res, fwd) # outs1" and a: "app' = app2" by auto
  have IH: "length outs1 = length rest
     \<and> (\<forall>i < length rest. map_option url (snd (outs1 ! i)) = Some (pool ! ((Suc k + i) mod length pool) @ ''/animate''))
     \<and> cyc_inv pool (Suc k + length rest) (server_cycle app2)"
    using Cons.IH [of "Suc k" app1 outs1] inv' app1 Cons.prems(2) s a by simp
  show ?case
  proof (intro conjI allI impI)
    show "length outs = length (r # rest)" using IH o by simp
    show "cyc_inv pool (k + length (r # rest)) (server_cycle app')" using IH a by simp
    fix i assume "i < length (r # rest)"
    then show "map_option url (snd (outs ! i)) = Some (pool ! ((k + i) mod length pool) @ ''/animate'')"
      using IH o fwd by (cases i) auto
  qed
qed

lemma cyc_inv_cursor:
  assumes "cyc_inv pool k c" and "pool \<noteq> []"
  shows "cursor c = k mod length pool"
proof (cases "k < length pool")
  case True
  then have d: "drop k pool = pool ! k # drop (Suc k) pool"
    by (simp add: Cons_nth_drop_Suc)
  with True assms show ?thesis by (simp add: cyc_inv_def cursor_def)
next
  case False
  with assms show ?thesis by (auto simp: cyc_inv_def cursor_def)
qed


text \<open>
  C1. For a pool fixed at startup (non-empty, or the application does not start) and
  any number of sequential calls of the handler from the fresh state, the \<open>i\<close>-th call
  (from 0) forwards to \<open>pool[i mod n]\<close>, whatever the earlier calls returned; the
  cursor starts at 0 and stands at \<open>m mod n\<close> after \<open>m\<close> calls.
\<close>

theorem round_robin_selection:
  assumes "create_app_from pool = Some app" and "serve app reqs = (outs, app')"
  shows "length outs = length reqs
     \<and> (\<forall>i < length reqs.
           map_option url (snd (outs ! i)) = Some (pool ! (i mod length pool) @ ''/animate''))
     \<and> cursor (server_cycle app) = 0
     \<and> cursor (server_cycle app') = length reqs mod length pool"
proof -
  from assms(1) have ne: "pool \<noteq> []" and app: "server_cycle app = cycle pool"
    by (auto simp: create_app_from_def split: if_splits)
  have inv0: "cyc_inv pool 0 (server_cycle app)"
    by (simp add: app cyc_inv_init)
  from serve_round_robin [OF inv0 ne assms(2)]
  have r: "length outs = length reqs"
    "\<forall>i < length reqs.
       map_option url (snd (outs ! i)) = Some (pool ! (i mod length pool) @ ''/animate'')"
    "cyc_inv pool (length reqs) (server_cycle app')"
    by simp_all
  have c0: "cursor (server_cycle app) = 0"
    using cyc_inv_cursor [OF inv0 ne] by simp
  have c1: "cursor (server_cycle app') = length reqs mod length pool"
    using cyc_inv_cursor [OF r(3) ne] .
  from r(1,2) c0 c1 show ?thesis by blast
qed

theorem round_robin_selection_witness:
  "create_app ''dev'' = Some \<lparr>worker_servers = worker_servers_list ''dev'',
       server_cycle = cycle (worker_servers_list ''dev'')\<rparr>
   \<and> map (\<lambda>out. map_option url (snd out))
        (fst (serve \<lparr>worker_servers = worker_servers_list ''dev'',
                server_cycle = cycle (worker_servers_list ''dev'')\<rparr> four_calls))
     = [Some ''http://localhost:8001/animate'', Some ''http://localhost:8002/animate'',
        Some ''http://localhost:8003/animate'', Some ''http://localhost:8001/animate'']"
proof -
  let ?pool = "worker_servers_list ''dev''"
  let ?app = "\<lparr>worker_servers = ?pool, server_cycle = cycle ?pool\<rparr>"
  have pool: "?pool = [''http://localhost:8001'', ''http://localhost:8002'', ''http://localhost:8003'']"
    by (simp add: worker_servers_list_def worker_ports_def digit_char_def)
  have a: "create_app_from ?pool = Some ?app"
    by (simp add: create_app_from_def pool)
  have s: "serve ?app four_calls = (fst (serve ?app four_calls), snd (serve ?app four_calls))"
    by simp
  have len: "length four_calls = 4" by (simp add: four_calls_def)
  from round_robin_selection [OF a s]
  have l: "length (fst (serve ?app four_calls)) = 4"
    and sel: "\<And>i. i < 4 \<Longrightarrow> map_option url (snd (fst (serve ?app four_calls) ! i))
        = Some (?pool ! (i mod length ?pool) @ ''/animate'')"
    by (simp_all add: len)
  obtain o0 o1 o2 o3 where outs: "fst (serve ?app four_calls) = [o0, o1, o2, o3]"
    using l by (auto simp: length_Suc_conv numeral_eq_Suc)
  from sel [of 0] sel [of 1] sel [of 2] sel [of 3] outs pool a
  show ?thesis by (simp add: create_app_def)
qed

lemma dev_pool: "worker_servers_list ''dev'' = [''http://localhost:8001'', ''http://localhost:8002'', ''http://localhost:8003'']"
  by (simp add: worker_servers_list_def worker_ports_def digit_char_def)

lemma dev_app_next: "cycle_next (server_cycle dev_app) = Some (''http://localhost:8001'',
   \<lparr>it = Some [''http://localhost:8002'', ''http://localhost:8003''], saved = [''http://localhost:8001''], index = 0\<rparr>)"
  by (simp add: dev_app_def dev_pool cycle_def cycle_next_def)

lemma route_forward:
  assumes "route_animation_request app payload hs post = (res, Some fwd, app')"
  shows "\<exists>w c. cycle_next (server_cycle app) = Some (w, c) \<and> res = relay w (post fwd)
     \<and> fwd = \<lparr>url = w @ ''/animate'', body = model_dump payload,
                      headers = headers_to_forward hs, timeout = WORKER_TIMEOUT\<rparr> \<and> app' = app\<lparr>server_cycle := c\<rparr>"
  using assms by (auto simp: route_animation_request_def Let_def split: option.splits)



text \<open>
  C4 (as amended). A failure of the forwarded call that is neither a
  \<^verbatim>\<open>ConnectError\<close> nor a \<^verbatim>\<open>ReadTimeout\<close> is caught by no handler: it leaves
  \<^verbatim>\<open>route_animation_request\<close> as that exception. The handler raises status 502 only
  to relay a worker that answered 502 itself.
\<close>

theorem other_failure_unhandled:
  assumes "route_animation_request app payload hs post = (res, Some fwd, app')"
  shows "(\<forall>e. post fwd = OtherError e \<longrightarrow> res = Unhandled e)
       \<and> (\<forall>d. res = HTTPException 502 d \<longrightarrow> (\<exists>r. post fwd = Returned r \<and> status_code r = 502))"
proof -
  from route_forward [OF assms(1)] obtain w where res: "res = relay w (post fwd)" by blast
  have "relay_status_error r = HTTPException 502 d \<Longrightarrow> status_code r = 502" for r d
    by (cases "json_body r")
       (simp_all add: relay_status_error_def split: json.splits)
  then show ?thesis
    by (cases "post fwd") (auto simp: res relay_def split: option.splits if_splits)
qed

theorem other_failure_unhandled_witness:
  "fst (route_animation_request dev_app example_payload example_headers worker_connect_timeout)
     = Unhandled ''ConnectTimeout''"
proof -
  let ?fwd = "\<lparr>url = ''http://localhost:8001/animate'', body = model_dump example_payload,
                      headers = headers_to_forward example_headers, timeout = WORKER_TIMEOUT\<rparr>"
  have a1: "route_animation_request dev_app example_payload example_headers worker_connect_timeout
      = (fst (route_animation_request dev_app example_payload example_headers worker_connect_timeout), Some ?fwd,
         snd (snd (route_animation_request dev_app example_payload example_headers worker_connect_timeout)))"
    by (simp add: route_animation_request_def dev_app_next Let_def)
  have p1: "worker_connect_timeout ?fwd = OtherError ''ConnectTimeout''" by (simp add: worker_connect_timeout_def)
  from other_failure_unhandled [OF a1, THEN conjunct1, rule_format, OF p1]
  show ?thesis .
qed

text \<open>
  C4 as stated fails: on a connection-phase timeout the handler ends with the
  unhandled exception, not with a bad-gateway result.
\<close>

theorem bad_gateway_counterexample:
  "create_app ''dev'' = Some dev_app
   \<and> route_animation_request dev_app example_payload example_headers worker_connect_timeout
     = (Unhandled ''ConnectTimeout'',
        Some \<lparr>url = ''http://localhost:8001/animate'', body = model_dump example_payload,
               headers = headers_to_forward example_headers, timeout = WORKER_TIMEOUT\<rparr>,
        dev_app\<lparr>server_cycle := \<lparr>it = Some [''http://localhost:8002'', ''http://localhost:8003''],
               saved = [''http://localhost:8001''], index = 0\<rparr>\<rparr>)
   \<and> (\<forall>d. fst (route_animation_request dev_app example_payload example_headers worker_connect_timeout)
          \<noteq> HTTPException 502 d)"
proof -
  have a: "create_app ''dev'' = Some dev_app"
    by (simp add: create_app_def create_app_from_def dev_app_def dev_pool)
  have r: "route_animation_request dev_app example_payload example_headers worker_connect_timeout
     = (Unhandled ''ConnectTimeout'',
        Some \<lparr>url = ''http://localhost:8001/animate'', body = model_dump example_payload,
               headers = headers_to_forward example_headers, timeout = WORKER_TIMEOUT\<rparr>,
        dev_app\<lparr>server_cycle := \<lparr>it = Some [''http://localhost:8002'', ''http://localhost:8003''],
               saved = [''http://localhost:8001''], index = 0\<rparr>\<rparr>)"
    by (simp add: route_animation_request_def dev_app_next Let_def relay_def worker_connect_timeout_def)
  show ?thesis unfolding r using a by simp
qed


















section \<open>Properties of the worker\<close>

lemma kaydara_not_gltf: "prefix ''Kaydara FBX'' b \<Longrightarrow> take 4 b \<noteq> ''glTF''"
  by (auto simp: prefix_def)

lemma gltf_prefix: "prefix ''glTF'' b \<longleftrightarrow> take 4 b = ''glTF''"
proof
  assume "prefix ''glTF'' b"
  then show "take 4 b = ''glTF''" by (auto simp: prefix_def)
next
  assume "take 4 b = ''glTF''"
  then have "b = ''glTF'' @ drop 4 b" by (metis append_take_drop_id)
  then show "prefix ''glTF'' b" by (metis prefixI)
qed

text \<open>
  C5. Empty mesh bytes are rejected with status 400 and the state is unchanged: no
  scratch file, no call. Bytes that begin with \<^verbatim>\<open>glTF\<close> are classified as
  \<^verbatim>\<open>.glb\<close>, bytes that begin with \<^verbatim>\<open>Kaydara FBX\<close> as \<^verbatim>\<open>.fbx\<close>, and the scratch
  file gets that suffix. Any other bytes are rejected with status 400, again with the
  state unchanged, and \<^verbatim>\<open>run_pipeline\<close> ends there: no stage of the pipeline runs.
\<close>

theorem mesh_classification:
  "(mesh_bytes = [] \<longrightarrow>
      prepare_input_memory env mesh_bytes w = (Some (HTTPExc 400 empty_mesh_detail), w)
      \<and> run_pipeline env mesh_bytes name w = (Inl (HTTPExc 400 empty_mesh_detail), w))
   \<and> (prefix ''glTF'' mesh_bytes \<longrightarrow> detect_ext mesh_bytes = Some ''.glb'')
   \<and> (prefix ''Kaydara FBX'' mesh_bytes \<longrightarrow> detect_ext mesh_bytes = Some ''.fbx'')
   \<and> (mesh_bytes \<noteq> [] \<and> \<not> prefix ''glTF'' mesh_bytes \<and> \<not> prefix ''Kaydara FBX'' mesh_bytes \<longrightarrow>
      prepare_input_memory env mesh_bytes w
        = (Some (HTTPExc 400 ''Unsupported mesh format. Supported: .glb or .fbx''), w)
      \<and> run_pipeline env mesh_bytes name w
        = (Inl (HTTPExc 400 ''Unsupported mesh format. Supported: .glb or .fbx''), w))
   \<and> (\<forall>ext p. mesh_bytes \<noteq> [] \<and> detect_ext mesh_bytes = Some ext
         \<and> NamedTemporaryFile_name (tmp_candidates env) ext (fs w) = Some p \<longrightarrow>
       suffix ext (last p)
       \<and> (tmp_write_error env = None \<longrightarrow>
            calls (snd (snd (prepare_input_memory_try env mesh_bytes ext w)))
              = calls w @ [PrepareInput p False 0 False]))"
proof (intro conjI impI allI)
  assume e: "mesh_bytes = []"
  show "prepare_input_memory env mesh_bytes w = (Some (HTTPExc 400 empty_mesh_detail), w)"
    by (simp add: e prepare_input_memory_def)
  then show "run_pipeline env mesh_bytes name w = (Inl (HTTPExc 400 empty_mesh_detail), w)"
    by (simp add: run_pipeline_def then_stage_def)
next
  assume "prefix ''glTF'' mesh_bytes"
  then show "detect_ext mesh_bytes = Some ''.glb''"
    by (simp add: detect_ext_def gltf_prefix)
next
  assume "prefix ''Kaydara FBX'' mesh_bytes"
  then show "detect_ext mesh_bytes = Some ''.fbx''"
    using kaydara_not_gltf by (simp add: detect_ext_def)
next
  assume a: "mesh_bytes \<noteq> [] \<and> \<not> prefix ''glTF'' mesh_bytes \<and> \<not> prefix ''Kaydara FBX'' mesh_bytes"
  then have d: "detect_ext mesh_bytes = None"
    by (simp add: detect_ext_def gltf_prefix)
  with a show p: "prepare_input_memory env mesh_bytes w
        = (Some (HTTPExc 400 ''Unsupported mesh format. Supported: .glb or .fbx''), w)"
    by (simp add: prepare_input_memory_def)
  show "run_pipeline env mesh_bytes name w
        = (Inl (HTTPExc 400 ''Unsupported mesh format. Supported: .glb or .fbx''), w)"
    by (simp add: run_pipeline_def then_stage_def p)
next
  fix ext p
  assume a: "mesh_bytes \<noteq> [] \<and> detect_ext mesh_bytes = Some ext
         \<and> NamedTemporaryFile_name (tmp_candidates env) ext (fs w) = Some p"
  then have "p \<in> set (map (\<lambda>n. [''dev'', ''shm'', ''tmp'' @ n @ ext]) (tmp_candidates env))"
    by (auto simp: NamedTemporaryFile_name_def find_Some_iff)
  then show "suffix ext (last p)"
    by (auto simp: suffix_def)
next
  fix ext p
  assume a: "mesh_bytes \<noteq> [] \<and> detect_ext mesh_bytes = Some ext
         \<and> NamedTemporaryFile_name (tmp_candidates env) ext (fs w) = Some p"
    and "tmp_write_error env = None"
  then show "calls (snd (snd (prepare_input_memory_try env mesh_bytes ext w)))
              = calls w @ [PrepareInput p False 0 False]"
    by (cases "snd (prepare_input_effect env)")
       (simp_all add: prepare_input_memory_try_def run_stage_def)
qed

theorem mesh_classification_witness:
  "run_pipeline nice_env [] ''running'' disk0 = (Inl (HTTPExc 400 empty_mesh_detail), disk0)
   \<and> run_pipeline nice_env ''<html>'' ''running'' disk0
       = (Inl (HTTPExc 400 ''Unsupported mesh format. Supported: .glb or .fbx''), disk0)
   \<and> detect_ext ''glTF-binary'' = Some ''.glb''
   \<and> detect_ext ''Kaydara FBX Binary'' = Some ''.fbx''"
proof -
  have w1: "run_pipeline nice_env [] ''running'' disk0 = (Inl (HTTPExc 400 empty_mesh_detail), disk0)"
    using mesh_classification [of "[]" nice_env disk0 "''running''", THEN conjunct1] by simp
  have w2: "run_pipeline nice_env ''<html>'' ''running'' disk0
       = (Inl (HTTPExc 400 ''Unsupported mesh format. Supported: .glb or .fbx''), disk0)"
    using mesh_classification [of "''<html>''" nice_env disk0 "''running''",
        THEN conjunct2, THEN conjunct2, THEN conjunct2, THEN conjunct1]
    by simp
  have w3: "detect_ext ''glTF-binary'' = Some ''.glb''"
    using mesh_classification [of "''glTF-binary''" nice_env disk0 "''running''",
        THEN conjunct2, THEN conjunct1]
    by simp
  have w4: "detect_ext ''Kaydara FBX Binary'' = Some ''.fbx''"
    using mesh_classification [of "''Kaydara FBX Binary''" nice_env disk0 "''running''",
        THEN conjunct2, THEN conjunct2, THEN conjunct1]
    by simp
  from w1 w2 w3 w4 show ?thesis by blast
qed




lemma credential_authorization:
  "\<not> truthy x_api_key \<Longrightarrow> truthy authorization \<Longrightarrow>
     credential x_api_key authorization = Some (''Authorization'', the authorization)"
  by (simp add: credential_def)

lemma nice_fetch_k1:
  "fetch_user_data_from_api nice_env ''x-api-key'' ''k1''
     = (Inr (JObj [(''email'', JStr ''a@b.c'')]),
        [IdentityGet ''https://api.csm.ai/user/userdata'' ''x-api-key'' ''k1''])"
  by (simp add: fetch_user_data_from_api_def endpoints_def nice_env_def)




lemma run_stage_calls: "calls (snd (run_stage c e w)) = calls w @ [c]"
  by (simp add: run_stage_def)



















































subsection \<open>The credential cache\<close>

lemma try_endpoints_same:
  assumes "list_all (\<lambda>u. identity_get env' u n v = identity_get env u n v) us"
  shows "try_endpoints env' n v us = try_endpoints env n v us"
  using assms by (induction us) (auto simp: Let_def split: endpoint_outcome.splits)

lemma fetch_same:
  "same_answers env env' (Some (n, v)) \<Longrightarrow>
     fetch_user_data_from_api env' n v = fetch_user_data_from_api env n v"
  by (simp add: same_answers_def fetch_user_data_from_api_def try_endpoints_same)

lemma try_endpoints_calls: "us \<noteq> [] \<Longrightarrow> snd (try_endpoints env n v us) \<noteq> []"
  by (cases us) (auto simp: Let_def split: endpoint_outcome.splits option.splits prod.splits)

lemma fetch_calls: "snd (fetch_user_data_from_api env n v) \<noteq> []"
  unfolding fetch_user_data_from_api_def
  by (rule try_endpoints_calls) (simp add: endpoints_def)

lemma try_endpoints_all_fail:
  assumes "list_all (\<lambda>u. endpoint_fails (identity_get env u n v)) us"
  shows "fst (try_endpoints env n v us) = Inl (HTTPExc 403 ''Invalid credentials'')"
  using assms
  by (induction us)
     (auto simp: Let_def endpoint_fails_def split: endpoint_outcome.splits prod.splits)

lemma cached_fetch_hit:
  "c (n, v) = Some (user, expires) \<Longrightarrow> now < expires \<Longrightarrow> cached_fetch env now c n v = (Inr user, [], c)"
  by (simp add: cached_fetch_def)

lemma cached_fetch_miss:
  assumes "c (n, v) = None \<or> (\<exists>user expires. c (n, v) = Some (user, expires) \<and> expires \<le> now)"
  shows "cached_fetch env now c n v =
     (case fetch_user_data_from_api env n v of
        (Inr user, cs) \<Rightarrow> (Inr user, cs, c((n, v) \<mapsto> (user, now + TTL)))
      | (Inl e, cs) \<Rightarrow> (Inl e, cs, c))"
  using assms by (auto simp: cached_fetch_def Let_def)

lemma hit_or_miss:
  "(\<exists>user expires. c (n, v) = Some (user, expires) \<and> (now :: nat) < expires)
   \<or> (c (n, v) = None \<or> (\<exists>user expires. c (n, v) = Some (user, expires) \<and> expires \<le> now))"
  by (cases "c (n, v)") (auto simp: not_le)

lemma auth_result_Inr: "auth_result (Inr user) = Inr user"
  by (simp add: auth_result_def)

lemma auth_result_Inl: "\<exists>err. auth_result (Inl e) = Inl err"
  by (cases e) (simp_all add: auth_result_def)

lemma cache_ok_tail: "cache_ok c (r # rest) \<Longrightarrow> cache_ok c rest"
  by (simp add: cache_ok_def)

lemma cache_ok_update:
  assumes ok: "cache_ok c rest"
    and cons: "list_all (\<lambda>(now', env', x', a').
         credential x' a' = Some (n, v) \<and> now' < now + TTL
           \<longrightarrow> same_answers env env' (Some (n, v))) rest"
    and f: "fst (fetch_user_data_from_api env n v) = Inr user"
  shows "cache_ok (c((n, v) \<mapsto> (user, now + TTL))) rest"
  unfolding cache_ok_def
proof (intro ballI, clarify)
  fix now' env' x' a' name val user' expires
  assume m: "(now', env', x', a') \<in> set rest"
    and cr: "credential x' a' = Some (name, val)"
    and e: "(c((n, v) \<mapsto> (user, now + TTL))) (name, val) = Some (user', expires)"
    and lt: "now' < expires"
  show "fst (fetch_user_data_from_api env' name val) = Inr user'"
  proof (cases "(name, val) = (n, v)")
    case True
    with e have u: "user' = user" "expires = now + TTL" by simp_all
    from cons m have "credential x' a' = Some (n, v) \<and> now' < now + TTL
           \<longrightarrow> same_answers env env' (Some (n, v))"
      by (auto simp: list_all_iff)
    with cr True lt u have "same_answers env env' (Some (n, v))" by simp
    from fetch_same [OF this] f True u show ?thesis by simp
  next
    case False
    with e have "c (name, val) = Some (user', expires)" by (auto split: if_splits)
    with ok m cr lt show ?thesis unfolding cache_ok_def by blast
  qed
qed

lemma verify_step:
  assumes ok: "cache_ok c ((now, env, x, a) # rest)"
    and cons: "consistent_within_ttl ((now, env, x, a) # rest)"
    and v: "verify_api_key env now c x a = (r, cs, c')"
  shows "r = fst (verify_api_key_uncached env x a) \<and> cache_ok c' rest"
proof (cases "credential x a")
  case None
  with v ok show ?thesis
    by (auto simp: verify_api_key_def verify_api_key_uncached_def dest: cache_ok_tail)
next
  case (Some cred)
  obtain n val where cred: "cred = (n, val)" by (cases cred) auto
  obtain fr fcs where f: "fetch_user_data_from_api env n val = (fr, fcs)"
    by (cases "fetch_user_data_from_api env n val") auto
  have u: "fst (verify_api_key_uncached env x a) = auth_result fr"
    by (simp add: verify_api_key_uncached_def Some cred f)
  have vc: "verify_api_key env now c x a
      = (case cached_fetch env now c n val of (r, cs, c') \<Rightarrow> (auth_result r, cs, c'))"
    by (simp add: verify_api_key_def Some cred)
  from hit_or_miss [of c n val now] show ?thesis
  proof
    assume "\<exists>user expires. c (n, val) = Some (user, expires) \<and> now < expires"
    then obtain user expires where h: "c (n, val) = Some (user, expires)" "now < expires" by blast
    from ok Some cred h have "fst (fetch_user_data_from_api env n val) = Inr user"
      unfolding cache_ok_def by auto
    with f have fr: "fr = Inr user" by simp
    from v vc cached_fetch_hit [of c n val user expires now env, OF h] have "r = Inr user" "c' = c"
      by (simp_all add: auth_result_Inr)
    with u fr ok show ?thesis by (auto simp: auth_result_Inr dest: cache_ok_tail)
  next
    assume m: "c (n, val) = None \<or> (\<exists>user expires. c (n, val) = Some (user, expires) \<and> expires \<le> now)"
    show ?thesis
    proof (cases fr)
      case (Inl e)
      with v vc cached_fetch_miss [of c n val now env, OF m] f have "r = auth_result fr" "c' = c" by simp_all
      with u ok show ?thesis by (auto dest: cache_ok_tail)
    next
      case (Inr user)
      with v vc cached_fetch_miss [of c n val now env, OF m] f
      have r: "r = auth_result fr" and c': "c' = c((n, val) \<mapsto> (user, now + TTL))" by simp_all
      from cons Some cred have l: "list_all (\<lambda>(now', env', x', a').
         credential x' a' = Some (n, val) \<and> now' < now + TTL
           \<longrightarrow> same_answers env env' (Some (n, val))) rest"
        by simp
      from f Inr have "fst (fetch_user_data_from_api env n val) = Inr user" by simp
      from cache_ok_update [OF cache_ok_tail [OF ok] l this] r u c' show ?thesis by simp
    qed
  qed
qed

lemma run_cached_uncached:
  "cache_ok c reqs \<Longrightarrow> consistent_within_ttl reqs \<Longrightarrow> run_cached c reqs = run_uncached reqs"
proof (induction reqs arbitrary: c)
  case Nil
  then show ?case by simp
next
  case (Cons q rest)
  obtain now env x a where q: "q = (now, env, x, a)" by (cases q) auto
  obtain r cs c' where v: "verify_api_key env now c x a = (r, cs, c')"
    by (cases "verify_api_key env now c x a") auto
  from verify_step [OF Cons.prems(1) [unfolded q] Cons.prems(2) [unfolded q] v]
  have r: "r = fst (verify_api_key_uncached env x a)" and ok': "cache_ok c' rest" by simp_all
  from Cons.prems(2) q have "consistent_within_ttl rest" by simp
  from Cons.IH [OF ok' this] q v r show ?case by simp
qed

lemma verify_error:
  assumes "verify_api_key env now c x a = (Inl err, cs, c')"
  shows "c' = c"
    and "credential x a = Some (n, v) \<Longrightarrow>
      c (n, v) = None \<or> (\<exists>user expires. c (n, v) = Some (user, expires) \<and> expires \<le> now)"
proof -
  show "c' = c"
  proof (cases "credential x a")
    case None
    with assms show ?thesis by (simp add: verify_api_key_def)
  next
    case (Some cred)
    obtain n val where cred: "cred = (n, val)" by (cases cred) auto
    obtain fr fcs where f: "fetch_user_data_from_api env n val = (fr, fcs)"
      by (cases "fetch_user_data_from_api env n val") auto
    from hit_or_miss [of c n val now] show ?thesis
    proof
      assume "\<exists>user expires. c (n, val) = Some (user, expires) \<and> now < expires"
      then obtain user expires where h: "c (n, val) = Some (user, expires)" "now < expires" by blast
      from assms Some cred cached_fetch_hit [of c n val user expires now env, OF h] show ?thesis
        by (simp add: verify_api_key_def auth_result_Inr)
    next
      assume m: "c (n, val) = None \<or> (\<exists>user expires. c (n, val) = Some (user, expires) \<and> expires \<le> now)"
      from assms Some cred cached_fetch_miss [of c n val now env, OF m] f show ?thesis
        by (cases fr) (simp_all add: verify_api_key_def auth_result_Inr)
    qed
  qed
next
  assume cr: "credential x a = Some (n, v)"
  show "c (n, v) = None \<or> (\<exists>user expires. c (n, v) = Some (user, expires) \<and> expires \<le> now)"
  proof (rule ccontr)
    assume "\<not> ?thesis"
    with hit_or_miss [of c n v now] obtain user expires
      where h: "c (n, v) = Some (user, expires)" "now < expires" by blast
    from assms cr cached_fetch_hit [of c n v user expires now env, OF h] show False
      by (simp add: verify_api_key_def auth_result_Inr)
  qed
qed

lemma retry_contacts:
  assumes "verify_api_key env now c x a = (Inl err, cs, c')" and "credential x a \<noteq> None"
    and "now \<le> now'"
  shows "fst (snd (verify_api_key env' now' c' x a)) = snd (verify_api_key_uncached env' x a)"
    and "snd (verify_api_key_uncached env' x a) \<noteq> []"
proof -
  from assms(2) obtain n v where cr: "credential x a = Some (n, v)" by (cases "credential x a") auto
  from verify_error [OF assms(1)] cr have c: "c' = c"
    and m: "c (n, v) = None \<or> (\<exists>user expires. c (n, v) = Some (user, expires) \<and> expires \<le> now)"
    by simp_all
  from m assms(3) have m': "c (n, v) = None \<or> (\<exists>user expires. c (n, v) = Some (user, expires) \<and> expires \<le> now')"
    by auto
  obtain fr fcs where f: "fetch_user_data_from_api env' n v = (fr, fcs)"
    by (cases "fetch_user_data_from_api env' n v") auto
  from cached_fetch_miss [of c n v now' env', OF m'] f cr c
  show "fst (snd (verify_api_key env' now' c' x a)) = snd (verify_api_key_uncached env' x a)"
    by (cases fr) (simp_all add: verify_api_key_def verify_api_key_uncached_def)
  from fetch_calls [of env' n v] f cr
  show "snd (verify_api_key_uncached env' x a) \<noteq> []"
    by (simp add: verify_api_key_uncached_def)
qed

lemma both_endpoints_fail:
  assumes "credential x a = Some (n, v)"
    and "list_all (\<lambda>u. endpoint_fails (identity_get env u n v)) endpoints"
  shows "fst (verify_api_key_uncached env x a) = Inl (403, ''Invalid credentials'')"
proof -
  from try_endpoints_all_fail [OF assms(2)]
  have "fst (fetch_user_data_from_api env n v) = Inl (HTTPExc 403 ''Invalid credentials'')"
    by (simp add: fetch_user_data_from_api_def)
  then show ?thesis
    by (cases "fetch_user_data_from_api env n v")
       (simp add: verify_api_key_uncached_def assms(1) auth_result_def)
qed

lemma both_endpoints_fail_cached:
  assumes cr: "credential x a = Some (n, v)"
    and fails: "list_all (\<lambda>u. endpoint_fails (identity_get env u n v)) endpoints"
    and miss: "\<forall>user expires. c (n, v) = Some (user, expires) \<longrightarrow> expires \<le> now"
  shows "\<exists>cs. verify_api_key env now c x a = (Inl (403, ''Invalid credentials''), cs, c)"
proof -
  from miss have m: "c (n, v) = None \<or> (\<exists>user expires. c (n, v) = Some (user, expires) \<and> expires \<le> now)"
    by (cases "c (n, v)") auto
  from try_endpoints_all_fail [OF fails]
  have f: "fst (fetch_user_data_from_api env n v) = Inl (HTTPExc 403 ''Invalid credentials'')"
    by (simp add: fetch_user_data_from_api_def)
  obtain fr fcs where ff: "fetch_user_data_from_api env n v = (fr, fcs)"
    by (cases "fetch_user_data_from_api env n v") auto
  with f have fr: "fr = Inl (HTTPExc 403 ''Invalid credentials'')" by simp
  from cached_fetch_miss [of c n v now env, OF m] ff fr cr show ?thesis
    by (simp add: verify_api_key_def auth_result_def)
qed

lemma cache_ok_empty: "cache_ok Map.empty reqs"
  by (simp add: cache_ok_def)

text \<open>
  C6. The verification with the TTL cache returns the same outcomes as the verification
  without it: over every sequence of verifications in which the identity service answers
  consistently within the TTL window, starting from the empty cache, the outcomes (the
  user data, or the error) are the same one by one. A verification that misses the cache
  and finds both endpoints of the identity service failing ends with the authentication
  error 403 and leaves the cache as it was, as does every verification that ends with an
  error; a later retry of the same credential then asks the identity service again.
\<close>

theorem cache_transparent:
  "(consistent_within_ttl reqs \<longrightarrow> run_cached Map.empty reqs = run_uncached reqs)
   \<and> (\<forall>name val. credential x a = Some (name, val)
          \<and> list_all (\<lambda>u. endpoint_fails (identity_get env u name val)) endpoints
        \<longrightarrow> fst (verify_api_key_uncached env x a) = Inl (403, ''Invalid credentials'')
          \<and> ((\<forall>user expires. c (name, val) = Some (user, expires) \<longrightarrow> expires \<le> now)
              \<longrightarrow> (\<exists>cs. verify_api_key env now c x a
                          = (Inl (403, ''Invalid credentials''), cs, c))))
   \<and> (\<forall>err cs c'. verify_api_key env now c x a = (Inl err, cs, c')
        \<longrightarrow> c' = c
          \<and> (credential x a \<noteq> None
              \<longrightarrow> (\<forall>now' env'. now \<le> now'
                    \<longrightarrow> fst (snd (verify_api_key env' now' c' x a))
                          = snd (verify_api_key_uncached env' x a)
                        \<and> snd (verify_api_key_uncached env' x a) \<noteq> [])))"
proof (intro conjI allI impI)
  assume "consistent_within_ttl reqs"
  with cache_ok_empty show "run_cached Map.empty reqs = run_uncached reqs"
    by (rule run_cached_uncached)
next
  fix name val
  assume "credential x a = Some (name, val)
          \<and> list_all (\<lambda>u. endpoint_fails (identity_get env u name val)) endpoints"
  then show "fst (verify_api_key_uncached env x a) = Inl (403, ''Invalid credentials'')"
    by (auto intro: both_endpoints_fail)
next
  fix name val
  assume "credential x a = Some (name, val)
          \<and> list_all (\<lambda>u. endpoint_fails (identity_get env u name val)) endpoints"
    and "\<forall>user expires. c (name, val) = Some (user, expires) \<longrightarrow> expires \<le> now"
  then show "\<exists>cs. verify_api_key env now c x a = (Inl (403, ''Invalid credentials''), cs, c)"
    using both_endpoints_fail_cached [of x a name val env c now] by blast
next
  fix err cs c'
  assume "verify_api_key env now c x a = (Inl err, cs, c')"
  then show "c' = c" by (rule verify_error(1))
next
  fix err cs c' now' env'
  assume v: "verify_api_key env now c x a = (Inl err, cs, c')"
    and cr: "credential x a \<noteq> None" and le: "now \<le> now'"
  from retry_contacts(1) [OF v cr le]
  show "fst (snd (verify_api_key env' now' c' x a)) = snd (verify_api_key_uncached env' x a)" .
next
  fix err cs c' now' env'
  assume v: "verify_api_key env now c x a = (Inl err, cs, c')"
    and cr: "credential x a \<noteq> None" and le: "now \<le> now'"
  from retry_contacts(2) [OF v cr le]
  show "snd (verify_api_key_uncached env' x a) \<noteq> []" .
qed

lemma five_verifications_consistent: "consistent_within_ttl five_verifications"
  by (simp add: five_verifications_def credential_def truthy_def TTL_def same_answers_def
      endpoints_def)

lemma five_verifications_uncached:
  "run_uncached five_verifications =
     [Inr (JObj [(''email'', JStr ''a@b.c'')]), Inr (JObj [(''email'', JStr ''a@b.c'')]),
      Inl (403, ''Invalid credentials''), Inl (403, ''Invalid credentials''),
      Inl (403, ''Invalid credentials'')]"
  by (simp add: five_verifications_def verify_api_key_uncached_def credential_def truthy_def
      fetch_user_data_from_api_def endpoints_def nice_env_def revoked_env_def auth_result_def)

lemma revoked_fails:
  "list_all (\<lambda>u. endpoint_fails (identity_get revoked_env u ''x-api-key'' ''k1'')) endpoints"
  by (simp add: endpoints_def revoked_env_def nice_env_def endpoint_fails_def)

theorem cache_transparent_witness:
  "consistent_within_ttl five_verifications
   \<and> run_cached Map.empty five_verifications =
     [Inr (JObj [(''email'', JStr ''a@b.c'')]), Inr (JObj [(''email'', JStr ''a@b.c'')]),
      Inl (403, ''Invalid credentials''), Inl (403, ''Invalid credentials''),
      Inl (403, ''Invalid credentials'')]
   \<and> credential (Some ''k1'') None = Some (''x-api-key'', ''k1'')
   \<and> list_all (\<lambda>u. endpoint_fails (identity_get revoked_env u ''x-api-key'' ''k1'')) endpoints
   \<and> fst (verify_api_key revoked_env 400 Map.empty (Some ''k1'') None)
       = Inl (403, ''Invalid credentials'')
   \<and> snd (snd (verify_api_key revoked_env 400 Map.empty (Some ''k1'') None))
         (''x-api-key'', ''k1'') = None
   \<and> fst (snd (verify_api_key nice_env 500 Map.empty (Some ''k1'') None))
       = [IdentityGet ''https://api.csm.ai/user/userdata'' ''x-api-key'' ''k1'']"
proof -
  note t = cache_transparent [of five_verifications "Some ''k1''" None revoked_env Map.empty 400]
  have cr: "credential (Some ''k1'') None = Some (''x-api-key'', ''k1'')"
    by (simp add: credential_def truthy_def)
  from t [THEN conjunct1, rule_format, OF five_verifications_consistent]
  have w1: "run_cached Map.empty five_verifications =
     [Inr (JObj [(''email'', JStr ''a@b.c'')]), Inr (JObj [(''email'', JStr ''a@b.c'')]),
      Inl (403, ''Invalid credentials''), Inl (403, ''Invalid credentials''),
      Inl (403, ''Invalid credentials'')]"
    by (simp add: five_verifications_uncached)
  from t [THEN conjunct2, THEN conjunct1, rule_format, OF conjI [OF cr revoked_fails]]
  obtain cs where v: "verify_api_key revoked_env 400 Map.empty (Some ''k1'') None
      = (Inl (403, ''Invalid credentials''), cs, Map.empty)"
    by auto
  from t [THEN conjunct2, THEN conjunct2, rule_format, OF v] cr
  have w3: "fst (snd (verify_api_key nice_env 500 Map.empty (Some ''k1'') None))
      = snd (verify_api_key_uncached nice_env (Some ''k1'') None)"
    by simp
  have u: "snd (verify_api_key_uncached nice_env (Some ''k1'') None)
      = [IdentityGet ''https://api.csm.ai/user/userdata'' ''x-api-key'' ''k1'']"
    by (simp add: verify_api_key_uncached_def cr nice_fetch_k1)
  from five_verifications_consistent w1 cr revoked_fails v w3 u show ?thesis by simp
qed

end
